theory Spec2Isabelle
  imports Complex_Main "HOL-Library.Char_ord" "HOL-Library.List_Lexorder" "HOL-Library.Product_Lexorder"
begin

section \<open>Errors\<close>

text \<open>
  The exceptions of \<^verbatim>\<open>main.py\<close> and of the libraries it calls, as values.
  \<open>TimeoutError\<close> is raised by \<^verbatim>\<open>wait_for_file_download\<close> (the spec's Timeout /
  AcquisitionTimeout); \<open>ValueError\<close> is what pandas raises for a missing worksheet and
  for a column list of the wrong length (the spec's MalformedInput); \<open>NotFound\<close>,
  \<open>Conflict\<close> and \<open>Forbidden\<close> are the warehouse client's API errors; \<open>BadRequest\<close>
  is a failed query (the spec's TransformError).
\<close>

datatype error =
    TimeoutError
  | ValueError
  | NotFound
  | Conflict
  | Forbidden
  | BadRequest
  | FileNotFoundError
  | WebDriverException
  | UploadError

section \<open>Strings\<close>

text \<open>
  Strings are byte strings. The identifiers the program handles are ASCII; a code point
  beyond ASCII is a run of bytes from 128 up, none of which is in \<^verbatim>\<open>[a-zA-Z0-9_]\<close>.
\<close>

definition is_upper :: "char \<Rightarrow> bool" where
  "is_upper c \<longleftrightarrow> 65 \<le> (of_char c :: nat) \<and> (of_char c :: nat) \<le> 90"

definition is_lower :: "char \<Rightarrow> bool" where
  "is_lower c \<longleftrightarrow> 97 \<le> (of_char c :: nat) \<and> (of_char c :: nat) \<le> 122"

definition is_digit :: "char \<Rightarrow> bool" where
  "is_digit c \<longleftrightarrow> 48 \<le> (of_char c :: nat) \<and> (of_char c :: nat) \<le> 57"

definition is_word_char :: "char \<Rightarrow> bool" where
  \<comment> \<open>membership in the class \<^verbatim>\<open>[a-zA-Z0-9_]\<close>\<close>
  "is_word_char c \<longleftrightarrow> is_lower c \<or> is_upper c \<or> is_digit c \<or> c = CHR ''_''"

definition lower_char :: "char \<Rightarrow> char" where
  "lower_char c = (if is_upper c then char_of (of_char c + (32 :: nat)) else c)"

definition lower :: "string \<Rightarrow> string" where
  \<comment> \<open>\<^verbatim>\<open>str.lower()\<close>\<close>
  "lower s = map lower_char s"




section \<open>Column-name sanitization\<close>

text \<open>
  \<^verbatim>\<open>re.sub(r"[^a-zA-Z0-9_]+", "_", col)\<close>: scanning from the left, every maximal run of
  characters outside the class is replaced by one underscore.
\<close>

function re_sub_non_word :: "string \<Rightarrow> string" where
  "re_sub_non_word [] = []"
| "re_sub_non_word (c # cs) =
     (if is_word_char c then c # re_sub_non_word cs
      else CHR ''_'' # re_sub_non_word (dropWhile (\<lambda>d. \<not> is_word_char d) cs))"
  by pat_completeness auto
termination
  by (relation "measure length") (auto simp: length_dropWhile_le less_Suc_eq_le)

definition sanitize :: "string \<Rightarrow> string" where
  \<comment> \<open>one element of the list comprehension of \<^verbatim>\<open>sanitize_column_names\<close>\<close>
  "sanitize col = lower (re_sub_non_word col)"


section \<open>Download Watcher\<close>






section \<open>Tabular Normalizer\<close>











section \<open>Layer Provisioner\<close>

text \<open>
  The warehouse as the provisioner sees it: the datasets that exist, the identifiers on
  which the lookup and the creation call answer with an error of their own (permissions,
  malformed identifier), and the creations performed so far.
\<close>

record warehouse =
  datasets :: "string list"
  get_denied :: "string list"
  create_denied :: "string list"
  created :: "string list"

definition get_dataset :: "warehouse \<Rightarrow> string \<Rightarrow> error + unit" where
  "get_dataset w dataset_id =
     (if dataset_id \<in> set (get_denied w) then Inl Forbidden
      else if dataset_id \<in> set (datasets w) then Inr ()
      else Inl NotFound)"

definition create_dataset :: "warehouse \<Rightarrow> string \<Rightarrow> bool \<Rightarrow> error + warehouse" where
  "create_dataset w dataset_id exists_ok =
     (if dataset_id \<in> set (create_denied w) then Inl Forbidden
      else if dataset_id \<in> set (datasets w) then (if exists_ok then Inr w else Inl Conflict)
      else Inr (w\<lparr>datasets := dataset_id # datasets w, created := dataset_id # created w\<rparr>))"

definition PROJECT_ID :: string where
  "PROJECT_ID = ''ps-eng-dados-ds3x-448302''"

definition create_bigquery_dataset :: "warehouse \<Rightarrow> string \<Rightarrow> error + warehouse" where
  "create_bigquery_dataset w dataset_id =
     (case get_dataset w dataset_id of
        Inr _ \<Rightarrow> Inr w
      | Inl e \<Rightarrow> (if e = NotFound then create_dataset w dataset_id True else Inl e))"

definition create_trusted_dataset :: "warehouse \<Rightarrow> string \<Rightarrow> error + warehouse" where
  "create_trusted_dataset w dataset_name =
     (let dataset_id = PROJECT_ID @ ''.'' @ dataset_name in
      case get_dataset w dataset_id of
        Inr _ \<Rightarrow> Inr w
      | Inl e \<Rightarrow> (if e = NotFound then create_dataset w dataset_id True else Inl e))"


section \<open>Trusted Transformer\<close>


type_synonym date = "nat \<times> nat \<times> nat"














datatype rule = CastDate | CastFloat | CastFloatDefault0 | CastTimestamp










section \<open>Refined Transformer\<close>

text \<open>
  The statement of \<^verbatim>\<open>transform_refined_data\<close> reads two columns of each trusted table:
  the date \<^verbatim>\<open>mes\<close> and the index value. A series is that projection, one pair per row.
  Index values are finite and kept exact; \<open>None\<close> is NULL. Dates are (year, month, day)
  and compare in that order. Rows with the same date keep their order in the window.
\<close>

type_synonym series = "(date \<times> rat option) list"

definition digit_char :: "nat \<Rightarrow> char" where
  "digit_char n = char_of (48 + n mod 10)"

function decimal :: "nat \<Rightarrow> string" where
  "decimal n = (if n < 10 then [digit_char n] else decimal (n div 10) @ [digit_char n])"
  by pat_completeness auto
termination
  by (relation "measure id") auto

definition FORMAT_DATE_Ym :: "date \<Rightarrow> string" where
  \<comment> \<open>\<^verbatim>\<open>FORMAT_DATE('%Y-%m', mes)\<close>: the year in as many digits as it takes, the month in two\<close>
  "FORMAT_DATE_Ym d = (case d of (y, m, _) \<Rightarrow> decimal y @ ''-'' @ [digit_char (m div 10), digit_char m])"

record cte_row =
  cte_ano_mes :: string
  cte_indice :: "rat option"
  cte_prev :: "rat option"

fun LAG :: "rat option \<Rightarrow> series \<Rightarrow> cte_row list" where
  \<comment> \<open>the rows of a window already in order, each with the value of the row before it;
      the first argument is the value carried over from the row before, NULL at the start\<close>
  "LAG carried [] = []"
| "LAG carried ((mes, v) # rest) =
     \<lparr>cte_ano_mes = FORMAT_DATE_Ym mes, cte_indice = v, cte_prev = carried\<rparr> # LAG v rest"

definition icc_data :: "series \<Rightarrow> cte_row list" where
  \<comment> \<open>\<^verbatim>\<open>LAG(icc) OVER(ORDER BY mes)\<close> over \<^verbatim>\<open>icc_trusted\<close>\<close>
  "icc_data icc_trusted = LAG None (sort_key fst icc_trusted)"

definition icf_data :: "series \<Rightarrow> cte_row list" where
  \<comment> \<open>\<^verbatim>\<open>LAG(icf) OVER(ORDER BY mes)\<close> over \<^verbatim>\<open>icf_trusted\<close>\<close>
  "icf_data icf_trusted = LAG None (sort_key fst icf_trusted)"

definition variacao :: "rat option \<Rightarrow> rat option \<Rightarrow> rat option" where
  \<comment> \<open>\<^verbatim>\<open>CASE WHEN prev IS NULL OR prev = 0 THEN NULL ELSE ((cur - prev) / prev) * 100 END\<close>\<close>
  "variacao cur prev =
     (case prev of
        None \<Rightarrow> None
      | Some p \<Rightarrow>
          if p = 0 then None
          else (case cur of None \<Rightarrow> None | Some c \<Rightarrow> Some (((c - p) / p) * 100)))"

record joined_row =
  ano_mes :: string
  icc_indice :: "rat option"
  icc_variacao :: "rat option"
  icf_indice :: "rat option"
  icf_variacao :: "rat option"

record refined_row = joined_row +
  load_timestamp :: nat

definition join_rows :: "cte_row \<Rightarrow> cte_row \<Rightarrow> joined_row" where
  "join_rows i f =
     \<lparr>ano_mes = cte_ano_mes i,
      icc_indice = cte_indice i,
      icc_variacao = variacao (cte_indice i) (cte_prev i),
      icf_indice = cte_indice f,
      icf_variacao = variacao (cte_indice f) (cte_prev f)\<rparr>"

definition joined_data :: "series \<Rightarrow> series \<Rightarrow> joined_row list" where
  \<comment> \<open>\<^verbatim>\<open>FROM icc_data AS i JOIN icf_data AS f USING (ano_mes)\<close>\<close>
  "joined_data icc_trusted icf_trusted =
     concat (map (\<lambda>i. map (join_rows i)
                          (filter (\<lambda>f. cte_ano_mes i = cte_ano_mes f) (icf_data icf_trusted)))
                 (icc_data icc_trusted))"

definition transform_refined_data :: "series \<Rightarrow> series \<Rightarrow> nat \<Rightarrow> refined_row list" where
  \<comment> \<open>the final select: \<^verbatim>\<open>CURRENT_TIMESTAMP()\<close> added, \<^verbatim>\<open>ORDER BY ano_mes ASC\<close>\<close>
  "transform_refined_data icc_trusted icf_trusted current_timestamp =
     sort_key ano_mes
       (map (\<lambda>j. \<lparr>ano_mes = ano_mes j,
                   icc_indice = icc_indice j,
                   icc_variacao = icc_variacao j,
                   icf_indice = icf_indice j,
                   icf_variacao = icf_variacao j,
                   load_timestamp = current_timestamp\<rparr>)
            (joined_data icc_trusted icf_trusted))"

section \<open>Run Orchestrator\<close>

text \<open>
  \<^verbatim>\<open>main\<close> as a sequence of steps on the outside world. What each step answers is the
  environment's: \<open>None\<close> when it returns, \<open>Some e\<close> when it raises \<open>e\<close>. The run is
  the list of steps attempted, in order, and the error that ends it, if any.
\<close>

datatype step =
    MakeDirs
  | Credentials
  | ProvisionRaw
  | ProvisionTrusted
  | ProvisionRefined
  | SetupDriver
  | Navigate nat
  | Download nat
  | Normalize nat
  | RawLoad nat
  | Transform nat
  | RemoveFile nat
  | Refine
  | DriverQuit

type_synonym outcome = "step \<Rightarrow> error option"

fun run_steps :: "outcome \<Rightarrow> step list \<Rightarrow> step list \<Rightarrow> error option \<times> step list" where
  "run_steps env [] trace = (None, trace)"
| "run_steps env (s # ss) trace =
     (case env s of
        Some e \<Rightarrow> (Some e, trace @ [s])
      | None \<Rightarrow> run_steps env ss (trace @ [s]))"

definition index_steps :: "nat \<Rightarrow> step list" where
  \<comment> \<open>the body of \<^verbatim>\<open>for index in indices\<close>\<close>
  "index_steps i = [Navigate i, Download i, Normalize i, RawLoad i, Transform i, RemoveFile i]"

definition main :: "outcome \<Rightarrow> error option \<times> step list" where
  "main env =
     (case run_steps env [MakeDirs, Credentials, ProvisionRaw, ProvisionTrusted, ProvisionRefined,
                          SetupDriver] [] of
        (Some e, trace) \<Rightarrow> (Some e, trace)
      | (None, trace) \<Rightarrow>
          (case run_steps env (index_steps 0 @ index_steps 1 @ [Refine]) trace of
             (body, trace') \<Rightarrow>
               (case run_steps env [DriverQuit] trace' of
                  (Some e, trace'') \<Rightarrow> (Some e, trace'')
                | (None, trace'') \<Rightarrow> (body, trace''))))"

definition acquired :: "outcome \<Rightarrow> bool" where
  \<comment> \<open>the run reached \<^verbatim>\<open>setup_chrome_driver\<close> and it returned a driver\<close>
  "acquired env \<longleftrightarrow> SetupDriver \<in> set (snd (main env)) \<and> env SetupDriver = None"

section \<open>Auxiliary predicates and sample inputs\<close>

definition is_clean :: "char \<Rightarrow> bool" where
  \<comment> \<open>membership in \<^verbatim>\<open>[a-z0-9_]\<close>\<close>
  "is_clean c \<longleftrightarrow> is_lower c \<or> is_digit c \<or> c = CHR ''_''"



definition empty_warehouse :: warehouse where
  "empty_warehouse = \<lparr>datasets = [], get_denied = [], create_denied = [], created = []\<rparr>"

definition raw_warehouse :: warehouse where
  \<comment> \<open>the empty warehouse after one creation of the dataset \<open>p.raw_ab12cd\<close>\<close>
  "raw_warehouse =
     \<lparr>datasets = [''p.raw_ab12cd''], get_denied = [], create_denied = [], created = [''p.raw_ab12cd'']\<rparr>"

definition demo_outcome :: outcome where
  \<comment> \<open>an environment in which the raw load of the second index fails and all else returns\<close>
  "demo_outcome s = (if s = RawLoad 1 then Some UploadError else None)"



definition stamp :: "nat \<Rightarrow> joined_row \<Rightarrow> refined_row" where
  \<comment> \<open>the select list of the final query, on one joined row\<close>
  "stamp now j =
     \<lparr>ano_mes = ano_mes j, icc_indice = icc_indice j, icc_variacao = icc_variacao j,
      icf_indice = icf_indice j, icf_variacao = icf_variacao j, load_timestamp = now\<rparr>"

definition demo_icc :: series where
  \<comment> \<open>three months of one index, not in date order\<close>
  "demo_icc = [((2024, 2, 1), Some 75), ((2024, 1, 1), Some 50), ((2024, 3, 1), Some 60)]"

definition demo_icf :: series where
  \<comment> \<open>the first two of those months of the other index, the first value zero\<close>
  "demo_icf = [((2024, 1, 1), Some 0), ((2024, 2, 1), Some 10)]"

definition demo_icf_gap :: series where
  \<comment> \<open>the other index with the middle month missing\<close>
  "demo_icf_gap = [((2024, 1, 1), Some 10), ((2024, 3, 1), Some 12)]"

section \<open>Properties of the sanitizer\<close>

lemma of_char_lower_char:
  "is_upper c \<Longrightarrow> (of_char (lower_char c) :: nat) = of_char c + 32"
  by (simp add: lower_char_def is_upper_def)

lemma lower_char_clean: "is_word_char c \<Longrightarrow> is_clean (lower_char c)"
proof (cases "is_upper c")
  case True
  then have "(of_char (lower_char c) :: nat) = of_char c + 32"
    by (rule of_char_lower_char)
  moreover from True have "65 \<le> (of_char c :: nat)" "(of_char c :: nat) \<le> 90"
    by (simp_all add: is_upper_def)
  ultimately have "is_lower (lower_char c)"
    unfolding is_lower_def by linarith
  then show ?thesis by (simp add: is_clean_def)
next
  case False
  assume "is_word_char c"
  with False have "is_clean c"
    unfolding is_clean_def is_word_char_def by blast
  moreover from False have "lower_char c = c" by (simp add: lower_char_def)
  ultimately show ?thesis by simp
qed

lemma clean_not_upper: "is_clean c \<Longrightarrow> \<not> is_upper c"
  by (auto simp: is_clean_def is_lower_def is_upper_def is_digit_def)

lemma clean_word: "is_clean c \<Longrightarrow> is_word_char c"
  by (auto simp: is_clean_def is_word_char_def)

lemma underscore_word: "is_word_char (CHR ''_'')"
  by (simp add: is_word_char_def)

lemma re_sub_all_word: "c \<in> set (re_sub_non_word s) \<Longrightarrow> is_word_char c"
proof (induction s rule: re_sub_non_word.induct)
  case 1
  then show ?case by simp
next
  case (2 d ds)
  show ?case
  proof (cases "is_word_char d")
    case True
    with 2 show ?thesis by auto
  next
    case False
    with 2 show ?thesis by (auto simp: underscore_word)
  qed
qed

lemma re_sub_id: "\<forall>c \<in> set s. is_word_char c \<Longrightarrow> re_sub_non_word s = s"
  by (induction s) simp_all

lemma lower_id: "\<forall>c \<in> set s. \<not> is_upper c \<Longrightarrow> lower s = s"
  by (induction s) (simp_all add: lower_def lower_char_def)

lemma sanitize_clean: "c \<in> set (sanitize s) \<Longrightarrow> is_clean c"
proof -
  assume "c \<in> set (sanitize s)"
  then obtain d where d: "d \<in> set (re_sub_non_word s)" and c: "c = lower_char d"
    unfolding sanitize_def lower_def by auto
  from d have "is_word_char d" by (rule re_sub_all_word)
  then show "is_clean c" unfolding c by (rule lower_char_clean)
qed

text \<open>
  C4. Sanitizing a column name twice gives the same string as sanitizing it once, for
  every string: after the first pass each character is in \<^verbatim>\<open>[a-z0-9_]\<close>, so the
  substitution finds no run to collapse and lowercasing changes nothing.
\<close>

theorem sanitize_idempotent: "sanitize (sanitize x) = sanitize x"
proof -
  have w: "\<forall>c \<in> set (sanitize x). is_word_char c"
    using sanitize_clean clean_word by blast
  have u: "\<forall>c \<in> set (sanitize x). \<not> is_upper c"
    using sanitize_clean clean_not_upper by blast
  have "re_sub_non_word (sanitize x) = sanitize x"
    using w by (rule re_sub_id)
  then have "sanitize (sanitize x) = lower (sanitize x)"
    by (simp add: sanitize_def [of "sanitize x"])
  also have "\<dots> = sanitize x"
    using u by (rule lower_id)
  finally show ?thesis .
qed

section \<open>Properties of the normalizer\<close>

























section \<open>Properties of the download watcher\<close>










section \<open>Properties of the provisioner\<close>

lemma create_bigquery_dataset_cases:
  "create_bigquery_dataset w d =
     (if d \<in> set (get_denied w) then Inl Forbidden
      else if d \<in> set (datasets w) then Inr w
      else if d \<in> set (create_denied w) then Inl Forbidden
      else Inr (w\<lparr>datasets := d # datasets w, created := d # created w\<rparr>))"
  by (simp add: create_bigquery_dataset_def get_dataset_def create_dataset_def)

lemma create_trusted_dataset_eq:
  "create_trusted_dataset w name = create_bigquery_dataset w (PROJECT_ID @ ''.'' @ name)"
  by (simp add: create_trusted_dataset_def create_bigquery_dataset_def Let_def)

lemma ensure_twice:
  assumes "create_bigquery_dataset w d = Inr w'"
  shows "create_bigquery_dataset w' d = Inr w' \<and>
         (created w' = created w \<or> (d \<notin> set (datasets w) \<and> created w' = d # created w))"
proof (cases "d \<in> set (datasets w)")
  case True
  with assms have "w' = w"
    by (simp add: create_bigquery_dataset_cases split: if_splits)
  with assms show ?thesis by simp
next
  case False
  with assms have w': "w' = w\<lparr>datasets := d # datasets w, created := d # created w\<rparr>"
    and g: "d \<notin> set (get_denied w)"
    by (simp_all add: create_bigquery_dataset_cases split: if_splits)
  from g have "create_bigquery_dataset w' d = Inr w'"
    by (simp add: create_bigquery_dataset_cases w')
  with False show ?thesis by (simp add: w')
qed

lemma ensure_failure:
  assumes "create_bigquery_dataset w d = Inl e"
  shows "e = Forbidden \<and> (d \<in> set (get_denied w) \<or> d \<in> set (create_denied w))"
  using assms by (simp add: create_bigquery_dataset_cases split: if_splits)

lemma ensure_existing:
  "d \<in> set (datasets w) \<Longrightarrow> d \<notin> set (get_denied w) \<Longrightarrow> create_bigquery_dataset w d = Inr w"
  by (simp add: create_bigquery_dataset_cases)

text \<open>
  C7. For both provisioning functions and every dataset identifier: when a call succeeds,
  a second call right after it succeeds too and leaves the warehouse as the first call left
  it, so over the two calls the dataset is created at most once (the log of creations grows
  by this identifier once, and only if the dataset was absent, or not at all); a dataset
  that already exists and can be looked up is never a failure; and when a call fails, the
  error is neither the lookup's NotFound nor the creation's Conflict (already exists) but an
  error of the warehouse on that identifier.
\<close>

theorem provisioning_idempotent:
  "(create_bigquery_dataset w d = Inr w' \<longrightarrow>
      create_bigquery_dataset w' d = Inr w' \<and>
      (created w' = created w \<or> (d \<notin> set (datasets w) \<and> created w' = d # created w))) \<and>
   (d \<in> set (datasets w) \<and> d \<notin> set (get_denied w) \<longrightarrow> create_bigquery_dataset w d = Inr w) \<and>
   (create_bigquery_dataset w d = Inl e \<longrightarrow>
      e \<noteq> Conflict \<and> e \<noteq> NotFound \<and> (d \<in> set (get_denied w) \<or> d \<in> set (create_denied w))) \<and>
   (create_trusted_dataset w n = Inr w'' \<longrightarrow>
      create_trusted_dataset w'' n = Inr w'' \<and>
      (created w'' = created w \<or>
       (PROJECT_ID @ ''.'' @ n \<notin> set (datasets w) \<and> created w'' = (PROJECT_ID @ ''.'' @ n) # created w))) \<and>
   (PROJECT_ID @ ''.'' @ n \<in> set (datasets w) \<and> PROJECT_ID @ ''.'' @ n \<notin> set (get_denied w) \<longrightarrow>
      create_trusted_dataset w n = Inr w) \<and>
   (create_trusted_dataset w n = Inl e' \<longrightarrow>
      e' \<noteq> Conflict \<and> e' \<noteq> NotFound \<and>
      (PROJECT_ID @ ''.'' @ n \<in> set (get_denied w) \<or> PROJECT_ID @ ''.'' @ n \<in> set (create_denied w)))"
proof (intro conjI impI)
  assume "create_bigquery_dataset w d = Inr w'"
  from ensure_twice [OF this]
  show "create_bigquery_dataset w' d = Inr w'"
    and "created w' = created w \<or> (d \<notin> set (datasets w) \<and> created w' = d # created w)"
    by simp_all
next
  assume "d \<in> set (datasets w) \<and> d \<notin> set (get_denied w)"
  then show "create_bigquery_dataset w d = Inr w" by (simp add: ensure_existing)
next
  assume "create_bigquery_dataset w d = Inl e"
  from ensure_failure [OF this]
  show "e \<noteq> Conflict" and "e \<noteq> NotFound"
    and "d \<in> set (get_denied w) \<or> d \<in> set (create_denied w)"
    by simp_all
next
  assume "create_trusted_dataset w n = Inr w''"
  then have "create_bigquery_dataset w (PROJECT_ID @ ''.'' @ n) = Inr w''"
    by (simp only: create_trusted_dataset_eq)
  from ensure_twice [OF this]
  show "create_trusted_dataset w'' n = Inr w''"
    and "created w'' = created w \<or>
       (PROJECT_ID @ ''.'' @ n \<notin> set (datasets w) \<and> created w'' = (PROJECT_ID @ ''.'' @ n) # created w)"
    by (simp_all only: create_trusted_dataset_eq)
next
  assume "PROJECT_ID @ ''.'' @ n \<in> set (datasets w) \<and> PROJECT_ID @ ''.'' @ n \<notin> set (get_denied w)"
  then have "create_bigquery_dataset w (PROJECT_ID @ ''.'' @ n) = Inr w"
    using ensure_existing by blast
  then show "create_trusted_dataset w n = Inr w"
    by (simp only: create_trusted_dataset_eq)
next
  assume "create_trusted_dataset w n = Inl e'"
  then have "create_bigquery_dataset w (PROJECT_ID @ ''.'' @ n) = Inl e'"
    by (simp only: create_trusted_dataset_eq)
  from ensure_failure [OF this]
  show "e' \<noteq> Conflict" and "e' \<noteq> NotFound"
    and "PROJECT_ID @ ''.'' @ n \<in> set (get_denied w) \<or> PROJECT_ID @ ''.'' @ n \<in> set (create_denied w)"
    by simp_all
qed

lemma provision_empty:
  "create_bigquery_dataset empty_warehouse ''p.raw_ab12cd'' = Inr raw_warehouse"
  by (simp add: create_bigquery_dataset_cases empty_warehouse_def raw_warehouse_def)

theorem provisioning_idempotent_witness:
  "create_bigquery_dataset empty_warehouse ''p.raw_ab12cd'' = Inr raw_warehouse \<and>
   create_bigquery_dataset raw_warehouse ''p.raw_ab12cd'' = Inr raw_warehouse \<and>
   created raw_warehouse = [''p.raw_ab12cd'']"
proof -
  have "create_bigquery_dataset raw_warehouse ''p.raw_ab12cd'' = Inr raw_warehouse"
    using provisioning_idempotent [of empty_warehouse "''p.raw_ab12cd''" raw_warehouse]
      provision_empty
    by blast
  then show ?thesis
    by (simp add: provision_empty raw_warehouse_def)
qed

section \<open>Properties of the orchestrator\<close>

lemma run_steps_trace:
  "\<exists>k \<le> length ss. snd (run_steps env ss trace) = trace @ take k ss"
proof (induction ss arbitrary: trace)
  case Nil
  then show ?case by simp
next
  case (Cons s ss)
  show ?case
  proof (cases "env s")
    case None
    from Cons [of "trace @ [s]"] obtain k where "k \<le> length ss"
      and "snd (run_steps env ss (trace @ [s])) = (trace @ [s]) @ take k ss"
      by blast
    with None have "Suc k \<le> length (s # ss) \<and>
        snd (run_steps env (s # ss) trace) = trace @ take (Suc k) (s # ss)"
      by simp
    then show ?thesis by blast
  next
    case (Some e)
    then have "Suc 0 \<le> length (s # ss) \<and>
        snd (run_steps env (s # ss) trace) = trace @ take (Suc 0) (s # ss)"
      by simp
    then show ?thesis by blast
  qed
qed

lemma prefix_acquires:
  assumes "run_steps env [MakeDirs, Credentials, ProvisionRaw, ProvisionTrusted, ProvisionRefined, SetupDriver] [] = (r, trace)"
  shows "(r = None \<longrightarrow> trace = [MakeDirs, Credentials, ProvisionRaw, ProvisionTrusted, ProvisionRefined, SetupDriver] \<and>
            env SetupDriver = None) \<and>
         (r \<noteq> None \<longrightarrow> DriverQuit \<notin> set trace \<and> (SetupDriver \<in> set trace \<longrightarrow> env SetupDriver \<noteq> None))"
  using assms by (auto split: option.splits)

lemma main_quit_last:
  assumes "run_steps env [MakeDirs, Credentials, ProvisionRaw, ProvisionTrusted, ProvisionRefined, SetupDriver] [] = (None, trace)"
  shows "\<exists>body. snd (main env) = trace @ body @ [DriverQuit] \<and> DriverQuit \<notin> set body"
proof -
  let ?body = "index_steps 0 @ index_steps 1 @ [Refine]"
  obtain r trace' where b: "run_steps env ?body trace = (r, trace')"
    by (cases "run_steps env ?body trace")
  from run_steps_trace [of ?body env trace] b obtain k where k: "trace' = trace @ take k ?body"
    by auto
  have nq: "DriverQuit \<notin> set ?body"
    by (simp add: index_steps_def)
  then have "DriverQuit \<notin> set (take k ?body)"
    by (meson in_set_takeD)
  moreover have "snd (main env) = trace' @ [DriverQuit]"
    using assms b by (simp add: main_def split: option.splits)
  ultimately show ?thesis using k by auto
qed

text \<open>
  C9. For every behaviour of the environment, that is whichever steps return and whichever
  raise, and whatever they raise: once \<^verbatim>\<open>setup_chrome_driver\<close> has returned the driver,
  the run quits the driver exactly once, as its last step. A run that did not acquire the
  driver does not quit it.
\<close>

theorem driver_released_once:
  "(acquired env \<longrightarrow>
      count_list (snd (main env)) DriverQuit = 1 \<and> last (snd (main env)) = DriverQuit) \<and>
   (\<not> acquired env \<longrightarrow> DriverQuit \<notin> set (snd (main env)))"
proof -
  let ?pre = "[MakeDirs, Credentials, ProvisionRaw, ProvisionTrusted, ProvisionRefined, SetupDriver]"
  obtain r trace where p: "run_steps env ?pre [] = (r, trace)"
    by (cases "run_steps env ?pre []")
  note pa = prefix_acquires [OF p]
  show ?thesis
  proof (cases r)
    case None
    with pa have tr: "trace = ?pre" and ok: "env SetupDriver = None" by simp_all
    from p None main_quit_last [of env trace] obtain body where
      m: "snd (main env) = trace @ body @ [DriverQuit]" and nq: "DriverQuit \<notin> set body"
      by blast
    from nq have "count_list body DriverQuit = 0"
      by (simp add: count_list_0_iff)
    with m tr have "count_list (snd (main env)) DriverQuit = 1" and "last (snd (main env)) = DriverQuit"
      by simp_all
    moreover from m tr ok have "acquired env"
      by (simp add: acquired_def)
    ultimately show ?thesis by simp
  next
    case (Some e)
    with p have m: "main env = (Some e, trace)"
      by (simp add: main_def)
    from Some pa have "DriverQuit \<notin> set trace" and "SetupDriver \<in> set trace \<longrightarrow> env SetupDriver \<noteq> None"
      by simp_all
    with m show ?thesis by (simp add: acquired_def)
  qed
qed

lemma demo_outcome_run:
  "main demo_outcome =
     (Some UploadError,
      [MakeDirs, Credentials, ProvisionRaw, ProvisionTrusted, ProvisionRefined, SetupDriver,
       Navigate 0, Download 0, Normalize 0, RawLoad 0, Transform 0, RemoveFile 0,
       Navigate 1, Download 1, Normalize 1, RawLoad 1, DriverQuit])"
  by (simp add: main_def demo_outcome_def index_steps_def)

theorem driver_released_once_witness:
  "acquired demo_outcome \<and> fst (main demo_outcome) = Some UploadError \<and>
   count_list (snd (main demo_outcome)) DriverQuit = 1 \<and> last (snd (main demo_outcome)) = DriverQuit"
proof -
  have a: "acquired demo_outcome"
    by (simp add: acquired_def demo_outcome_run) (simp add: demo_outcome_def)
  with driver_released_once [of demo_outcome]
  have "count_list (snd (main demo_outcome)) DriverQuit = 1 \<and> last (snd (main demo_outcome)) = DriverQuit"
    by blast
  with a show ?thesis by (simp add: demo_outcome_run)
qed

section \<open>Properties of the trusted transform\<close>














section \<open>Properties of the refined transform\<close>

lemma LAG_ano_mes: "map cte_ano_mes (LAG c s) = map (\<lambda>x. FORMAT_DATE_Ym (fst x)) s"
  by (induction s arbitrary: c) auto



lemma icf_data_eq: "icf_data t = icc_data t"
  by (simp add: icf_data_def icc_data_def)

lemma icc_data_keys: "cte_ano_mes ` set (icc_data t) = (\<lambda>x. FORMAT_DATE_Ym (fst x)) ` set t"
proof -
  have "cte_ano_mes ` set (icc_data t) = set (map cte_ano_mes (icc_data t))" by simp
  also have "\<dots> = set (map (\<lambda>x. FORMAT_DATE_Ym (fst x)) (sort_key fst t))"
    by (simp only: icc_data_def LAG_ano_mes)
  also have "\<dots> = (\<lambda>x. FORMAT_DATE_Ym (fst x)) ` set t" by simp
  finally show ?thesis .
qed

lemma set_joined_data:
  "set (joined_data icc icf) =
     {join_rows i f | i f. i \<in> set (icc_data icc) \<and> f \<in> set (icf_data icf) \<and>
                           cte_ano_mes i = cte_ano_mes f}"
  by (auto simp: joined_data_def)

lemma set_transform:
  "set (transform_refined_data icc icf now) = stamp now ` set (joined_data icc icf)"
  by (simp add: transform_refined_data_def stamp_def [abs_def])

lemma refined_row_iff:
  "r \<in> set (transform_refined_data icc icf now) \<longleftrightarrow>
     (\<exists>i \<in> set (icc_data icc). \<exists>f \<in> set (icf_data icf).
        cte_ano_mes i = cte_ano_mes f \<and> r = stamp now (join_rows i f))"
  unfolding set_transform set_joined_data by blast

lemma refined_rowI:
  "i \<in> set (icc_data icc) \<Longrightarrow> f \<in> set (icf_data icf) \<Longrightarrow> cte_ano_mes i = cte_ano_mes f \<Longrightarrow>
     stamp now (join_rows i f) \<in> set (transform_refined_data icc icf now)"
  unfolding refined_row_iff by blast

lemma stamp_join_fields:
  "ano_mes (stamp now (join_rows i f)) = cte_ano_mes i"
  "icc_indice (stamp now (join_rows i f)) = cte_indice i"
  "icc_variacao (stamp now (join_rows i f)) = variacao (cte_indice i) (cte_prev i)"
  "icf_indice (stamp now (join_rows i f)) = cte_indice f"
  "icf_variacao (stamp now (join_rows i f)) = variacao (cte_indice f) (cte_prev f)"
  "load_timestamp (stamp now (join_rows i f)) = now"
  by (simp_all add: stamp_def join_rows_def)

lemma demo_refined:
  "transform_refined_data demo_icc demo_icf 7 =
     [\<lparr>ano_mes = ''2024-01'', icc_indice = Some 50, icc_variacao = None,
       icf_indice = Some 0, icf_variacao = None, load_timestamp = 7\<rparr>,
      \<lparr>ano_mes = ''2024-02'', icc_indice = Some 75, icc_variacao = Some 50,
       icf_indice = Some 10, icf_variacao = None, load_timestamp = 7\<rparr>]"
  by code_simp

lemma demo_refined_gap:
  "transform_refined_data demo_icc demo_icf_gap 7 =
     [\<lparr>ano_mes = ''2024-01'', icc_indice = Some 50, icc_variacao = None,
       icf_indice = Some 10, icf_variacao = None, load_timestamp = 7\<rparr>,
      \<lparr>ano_mes = ''2024-03'', icc_indice = Some 60, icc_variacao = Some (- 20),
       icf_indice = Some 12, icf_variacao = Some 20, load_timestamp = 7\<rparr>]"
  by code_simp




text \<open>
  C5. The periods of the refined table are exactly the year-month keys present in both
  trusted tables; its rows are in ascending order of the key; and what it holds for one
  series (key, value, change) is exactly what that series' own table gives with its own
  look-back, kept for the keys the other table has too: the other table selects rows, it
  does not enter the look-back.
\<close>

theorem refined_inner_join:
  "set (map ano_mes (transform_refined_data icc icf now)) =
     (\<lambda>x. FORMAT_DATE_Ym (fst x)) ` set icc \<inter> (\<lambda>x. FORMAT_DATE_Ym (fst x)) ` set icf \<and>
   sorted (map ano_mes (transform_refined_data icc icf now)) \<and>
   (\<lambda>r. (ano_mes r, icc_indice r, icc_variacao r)) ` set (transform_refined_data icc icf now) =
     {(cte_ano_mes i, cte_indice i, variacao (cte_indice i) (cte_prev i)) | i.
        i \<in> set (icc_data icc) \<and> cte_ano_mes i \<in> (\<lambda>x. FORMAT_DATE_Ym (fst x)) ` set icf} \<and>
   (\<lambda>r. (ano_mes r, icf_indice r, icf_variacao r)) ` set (transform_refined_data icc icf now) =
     {(cte_ano_mes f, cte_indice f, variacao (cte_indice f) (cte_prev f)) | f.
        f \<in> set (icf_data icf) \<and> cte_ano_mes f \<in> (\<lambda>x. FORMAT_DATE_Ym (fst x)) ` set icc}"
proof (intro conjI)
  let ?K = "\<lambda>t. (\<lambda>x. FORMAT_DATE_Ym (fst x)) ` set t"
  let ?out = "transform_refined_data icc icf now"
  have kc: "cte_ano_mes ` set (icc_data icc) = ?K icc" by (rule icc_data_keys)
  have kf: "cte_ano_mes ` set (icf_data icf) = ?K icf"
    unfolding icf_data_eq by (rule icc_data_keys)
  show "set (map ano_mes ?out) = ?K icc \<inter> ?K icf"
  proof (intro set_eqI iffI)
    fix a
    assume "a \<in> set (map ano_mes ?out)"
    then obtain r where "r \<in> set ?out" and a: "a = ano_mes r" by auto
    then obtain i f where i: "i \<in> set (icc_data icc)" and f: "f \<in> set (icf_data icf)"
      and eq: "cte_ano_mes i = cte_ano_mes f" and r: "r = stamp now (join_rows i f)"
      unfolding refined_row_iff by blast
    from a r have "a = cte_ano_mes i" by (simp only: stamp_join_fields)
    with i have "a \<in> cte_ano_mes ` set (icc_data icc)"
      by (rule_tac image_eqI)
    moreover from \<open>a = cte_ano_mes i\<close> eq f have "a \<in> cte_ano_mes ` set (icf_data icf)"
      by (rule_tac x = f in image_eqI) simp_all
    ultimately have "a \<in> cte_ano_mes ` set (icc_data icc)" and "a \<in> cte_ano_mes ` set (icf_data icf)"
      by blast+
    then show "a \<in> ?K icc \<inter> ?K icf" unfolding kc kf by simp
  next
    fix a
    assume "a \<in> ?K icc \<inter> ?K icf"
    then have "a \<in> cte_ano_mes ` set (icc_data icc)" and "a \<in> cte_ano_mes ` set (icf_data icf)"
      unfolding kc kf by simp_all
    then obtain i f where i: "i \<in> set (icc_data icc)" and ai: "a = cte_ano_mes i"
      and f: "f \<in> set (icf_data icf)" and af: "a = cte_ano_mes f"
      by blast
    from ai af have "cte_ano_mes i = cte_ano_mes f" by simp
    with i f have "stamp now (join_rows i f) \<in> set ?out"
      by (rule refined_rowI)
    moreover have "ano_mes (stamp now (join_rows i f)) = a"
      using ai by (simp only: stamp_join_fields)
    ultimately show "a \<in> set (map ano_mes ?out)" by force
  qed
  show "sorted (map ano_mes ?out)"
    unfolding transform_refined_data_def by (rule sorted_sort_key)
  show "(\<lambda>r. (ano_mes r, icc_indice r, icc_variacao r)) ` set ?out =
     {(cte_ano_mes i, cte_indice i, variacao (cte_indice i) (cte_prev i)) | i.
        i \<in> set (icc_data icc) \<and> cte_ano_mes i \<in> ?K icf}"
  proof (intro set_eqI iffI)
    fix x
    assume "x \<in> (\<lambda>r. (ano_mes r, icc_indice r, icc_variacao r)) ` set ?out"
    then obtain r where "r \<in> set ?out" and x: "x = (ano_mes r, icc_indice r, icc_variacao r)"
      by blast
    then obtain i f where i: "i \<in> set (icc_data icc)" and f: "f \<in> set (icf_data icf)"
      and eq: "cte_ano_mes i = cte_ano_mes f" and r: "r = stamp now (join_rows i f)"
      unfolding refined_row_iff by blast
    from x r have "x = (cte_ano_mes i, cte_indice i, variacao (cte_indice i) (cte_prev i))"
      by (simp only: stamp_join_fields)
    moreover from f eq have "cte_ano_mes i \<in> cte_ano_mes ` set (icf_data icf)"
      by (metis image_eqI)
    then have "cte_ano_mes i \<in> ?K icf"
      unfolding kf .
    moreover note this
    ultimately show "x \<in> {(cte_ano_mes i, cte_indice i, variacao (cte_indice i) (cte_prev i)) | i.
        i \<in> set (icc_data icc) \<and> cte_ano_mes i \<in> ?K icf}"
      using i by blast
  next
    fix x
    assume "x \<in> {(cte_ano_mes i, cte_indice i, variacao (cte_indice i) (cte_prev i)) | i.
        i \<in> set (icc_data icc) \<and> cte_ano_mes i \<in> ?K icf}"
    then obtain i where x: "x = (cte_ano_mes i, cte_indice i, variacao (cte_indice i) (cte_prev i))"
      and i: "i \<in> set (icc_data icc)" and "cte_ano_mes i \<in> ?K icf"
      by blast
    then have "cte_ano_mes i \<in> cte_ano_mes ` set (icf_data icf)"
      unfolding kf by simp
    then obtain f where f: "f \<in> set (icf_data icf)" and eq: "cte_ano_mes i = cte_ano_mes f"
      by blast
    from i f eq have "stamp now (join_rows i f) \<in> set ?out"
      by (rule refined_rowI)
    moreover have "x = (ano_mes (stamp now (join_rows i f)), icc_indice (stamp now (join_rows i f)),
        icc_variacao (stamp now (join_rows i f)))"
      unfolding x by (simp only: stamp_join_fields)
    ultimately show "x \<in> (\<lambda>r. (ano_mes r, icc_indice r, icc_variacao r)) ` set ?out"
      by blast
  qed
  show "(\<lambda>r. (ano_mes r, icf_indice r, icf_variacao r)) ` set ?out =
     {(cte_ano_mes f, cte_indice f, variacao (cte_indice f) (cte_prev f)) | f.
        f \<in> set (icf_data icf) \<and> cte_ano_mes f \<in> ?K icc}"
  proof (intro set_eqI iffI)
    fix x
    assume "x \<in> (\<lambda>r. (ano_mes r, icf_indice r, icf_variacao r)) ` set ?out"
    then obtain r where "r \<in> set ?out" and x: "x = (ano_mes r, icf_indice r, icf_variacao r)"
      by blast
    then obtain i f where i: "i \<in> set (icc_data icc)" and f: "f \<in> set (icf_data icf)"
      and eq: "cte_ano_mes i = cte_ano_mes f" and r: "r = stamp now (join_rows i f)"
      unfolding refined_row_iff by blast
    from x r eq have "x = (cte_ano_mes f, cte_indice f, variacao (cte_indice f) (cte_prev f))"
      by (simp only: stamp_join_fields)
    moreover from i eq have "cte_ano_mes f \<in> cte_ano_mes ` set (icc_data icc)"
      by (metis image_eqI)
    then have "cte_ano_mes f \<in> ?K icc"
      unfolding kc .
    moreover note this
    ultimately show "x \<in> {(cte_ano_mes f, cte_indice f, variacao (cte_indice f) (cte_prev f)) | f.
        f \<in> set (icf_data icf) \<and> cte_ano_mes f \<in> ?K icc}"
      using f by blast
  next
    fix x
    assume "x \<in> {(cte_ano_mes f, cte_indice f, variacao (cte_indice f) (cte_prev f)) | f.
        f \<in> set (icf_data icf) \<and> cte_ano_mes f \<in> ?K icc}"
    then obtain f where x: "x = (cte_ano_mes f, cte_indice f, variacao (cte_indice f) (cte_prev f))"
      and f: "f \<in> set (icf_data icf)" and "cte_ano_mes f \<in> ?K icc"
      by blast
    then have "cte_ano_mes f \<in> cte_ano_mes ` set (icc_data icc)"
      unfolding kc by simp
    then obtain i where i: "i \<in> set (icc_data icc)" and eq: "cte_ano_mes i = cte_ano_mes f"
      by force
    from i f eq have "stamp now (join_rows i f) \<in> set ?out"
      by (rule refined_rowI)
    moreover have "x = (ano_mes (stamp now (join_rows i f)), icf_indice (stamp now (join_rows i f)),
        icf_variacao (stamp now (join_rows i f)))"
      unfolding x using eq by (simp only: stamp_join_fields)
    ultimately show "x \<in> (\<lambda>r. (ano_mes r, icf_indice r, icf_variacao r)) ` set ?out"
      by blast
  qed
qed

lemma demo_keys:
  "map (\<lambda>x. FORMAT_DATE_Ym (fst x)) demo_icc = [''2024-02'', ''2024-01'', ''2024-03'']"
  "map (\<lambda>x. FORMAT_DATE_Ym (fst x)) demo_icf = [''2024-01'', ''2024-02'']"
  by code_simp+

lemma demo_icc_keys:
  "(\<lambda>x. FORMAT_DATE_Ym (fst x)) ` set demo_icc = {''2024-02'', ''2024-01'', ''2024-03''}"
proof -
  have "(\<lambda>x. FORMAT_DATE_Ym (fst x)) ` set demo_icc = set (map (\<lambda>x. FORMAT_DATE_Ym (fst x)) demo_icc)"
    by (simp only: set_map)
  also have "\<dots> = set [''2024-02'', ''2024-01'', ''2024-03'']"
    by (simp only: demo_keys)
  finally show ?thesis by (simp only: list.set)
qed

lemma demo_icf_keys:
  "(\<lambda>x. FORMAT_DATE_Ym (fst x)) ` set demo_icf = {''2024-01'', ''2024-02''}"
proof -
  have "(\<lambda>x. FORMAT_DATE_Ym (fst x)) ` set demo_icf = set (map (\<lambda>x. FORMAT_DATE_Ym (fst x)) demo_icf)"
    by (simp only: set_map)
  also have "\<dots> = set [''2024-01'', ''2024-02'']"
    by (simp only: demo_keys)
  finally show ?thesis by (simp only: list.set)
qed

lemma demo_keys_inter:
  "{''2024-02'', ''2024-01'', ''2024-03''} \<inter> {''2024-01'', ''2024-02''} = {''2024-01'', ''2024-02''}"
  by simp

theorem refined_inner_join_witness:
  "set (map ano_mes (transform_refined_data demo_icc demo_icf 7)) = {''2024-01'', ''2024-02''} \<and>
   map ano_mes (transform_refined_data demo_icc demo_icf 7) = [''2024-01'', ''2024-02''] \<and>
   transform_refined_data demo_icc demo_icf_gap 7 =
     [\<lparr>ano_mes = ''2024-01'', icc_indice = Some 50, icc_variacao = None,
       icf_indice = Some 10, icf_variacao = None, load_timestamp = 7\<rparr>,
      \<lparr>ano_mes = ''2024-03'', icc_indice = Some 60, icc_variacao = Some (- 20),
       icf_indice = Some 12, icf_variacao = Some 20, load_timestamp = 7\<rparr>]"
proof (intro conjI)
  have "set (map ano_mes (transform_refined_data demo_icc demo_icf 7)) =
      (\<lambda>x. FORMAT_DATE_Ym (fst x)) ` set demo_icc \<inter> (\<lambda>x. FORMAT_DATE_Ym (fst x)) ` set demo_icf"
    by (rule refined_inner_join [of demo_icc demo_icf 7, THEN conjunct1])
  then show "set (map ano_mes (transform_refined_data demo_icc demo_icf 7)) = {''2024-01'', ''2024-02''}"
    by (simp only: demo_icc_keys demo_icf_keys demo_keys_inter)
  show "map ano_mes (transform_refined_data demo_icc demo_icf 7) = [''2024-01'', ''2024-02'']"
    by (simp add: demo_refined)
  show "transform_refined_data demo_icc demo_icf_gap 7 =
     [\<lparr>ano_mes = ''2024-01'', icc_indice = Some 50, icc_variacao = None,
       icf_indice = Some 10, icf_variacao = None, load_timestamp = 7\<rparr>,
      \<lparr>ano_mes = ''2024-03'', icc_indice = Some 60, icc_variacao = Some (- 20),
       icf_indice = Some 12, icf_variacao = Some 20, load_timestamp = 7\<rparr>]"
    by (rule demo_refined_gap)
qed

end
